theory Spec2Isabelle
  imports Main "HOL-Library.Word"
begin

unbundle bit_operations_syntax

section \<open>Keystore of the Neuron wallet\<close>

text \<open>
  A shallow embedding of \<^verbatim>\<open>packages/neuron-wallet/src/models/keys/keystore.ts\<close>:
  the class \<^verbatim>\<open>Keystore\<close> with \<^verbatim>\<open>fromJson\<close>, \<^verbatim>\<open>create\<close>,
  \<^verbatim>\<open>decrypt\<close>, \<^verbatim>\<open>extendedPrivateKey\<close>, \<^verbatim>\<open>checkPassword\<close>,
  \<^verbatim>\<open>derivedKey\<close> and \<^verbatim>\<open>mac\<close>.

  The class calls into libraries that are not part of the repository: Node's
  \<^verbatim>\<open>crypto\<close> module (\<^verbatim>\<open>randomBytes\<close>, \<^verbatim>\<open>scryptSync\<close>,
  \<^verbatim>\<open>createCipheriv\<close>, \<^verbatim>\<open>createDecipheriv\<close>), the \<^verbatim>\<open>sha3\<close>
  package (\<^verbatim>\<open>Keccak\<close>) and \<^verbatim>\<open>uuid\<close>. They are parameters of the model,
  collected in the record \<open>provider\<close>; what a theorem needs of them is stated as a
  hypothesis on the provider. \<^verbatim>\<open>Buffer\<close>'s hex encoding and \<^verbatim>\<open>JSON.parse\<close>
  are modelled concretely.
\<close>

subsection \<open>Buffers and their hex encoding\<close>

text \<open>
  A \<^verbatim>\<open>Buffer\<close> is a list of bytes. \<^verbatim>\<open>buf.toString('hex')\<close> writes two lowercase
  hex digits per byte. \<^verbatim>\<open>Buffer.from(s, 'hex')\<close> reads pairs of hex digits of either
  case and stops at the first pair that is not one; a trailing single character is
  dropped. \<^verbatim>\<open>buf.slice(start, end)\<close> with \<open>0 \<le> start \<le> end\<close> is cut off at
  the buffer's length.
\<close>

type_synonym Buffer = "8 word list"

definition hexDigit :: "nat \<Rightarrow> char" where
  "hexDigit d = ''0123456789abcdef'' ! d"

definition hexValue :: "char \<Rightarrow> nat option" where
  "hexValue c =
     (let k = of_char c :: nat in
      if 48 \<le> k \<and> k \<le> 57 then Some (k - 48)
      else if 97 \<le> k \<and> k \<le> 102 then Some (k - 87)
      else if 65 \<le> k \<and> k \<le> 70 then Some (k - 55)
      else None)"

fun toString_hex :: "Buffer \<Rightarrow> string" where
  "toString_hex [] = []"
| "toString_hex (b # bs) =
     hexDigit (unat b div 16) # hexDigit (unat b mod 16) # toString_hex bs"

fun from_hex :: "string \<Rightarrow> Buffer" where
  "from_hex (a # b # cs) =
     (case (hexValue a, hexValue b) of
        (Some h, Some l) \<Rightarrow> word_of_nat (16 * h + l) # from_hex cs
      | _ \<Rightarrow> [])"
| "from_hex _ = []"

definition slice :: "Buffer \<Rightarrow> nat \<Rightarrow> nat \<Rightarrow> Buffer" where
  "slice buf start end' = take (end' - start) (drop start buf)"

subsection \<open>JSON.parse\<close>

text \<open>
  A JavaScript string is a list of UTF-16 code units; \<open>js\<close> reads an ASCII literal
  as one. \<open>JSON_parse\<close> follows the JSON grammar of ECMA-404, which is what
  \<^verbatim>\<open>JSON.parse\<close> accepts: \<open>None\<close> stands for the \<^verbatim>\<open>SyntaxError\<close> it throws.
  The text is first cut into tokens, then the tokens are read by a pushdown automaton.
  A number is kept as its text (its value as a double is not needed here); of an
  object's members the list keeps every one, in the order of the text.
\<close>

type_synonym jsstring = "nat list"

definition js :: "string \<Rightarrow> jsstring" where
  "js s = map of_char s"

datatype json =
    JNull
  | JBool bool
  | JNumber jsstring
  | JString jsstring
  | JArray "json list"
  | JObject "(jsstring \<times> json) list"

datatype token =
    LBrace | RBrace | LBracket | RBracket | Colon | Comma
  | TString jsstring | TNumber jsstring | TTrue | TFalse | TNull

definition is_ws :: "nat \<Rightarrow> bool" where
  "is_ws c = (c = 32 \<or> c = 9 \<or> c = 10 \<or> c = 13)"

definition is_digit :: "nat \<Rightarrow> bool" where
  "is_digit c = (48 \<le> c \<and> c \<le> 57)"

definition hex_unit :: "nat \<Rightarrow> nat option" where
  "hex_unit c =
     (if 48 \<le> c \<and> c \<le> 57 then Some (c - 48)
      else if 97 \<le> c \<and> c \<le> 102 then Some (c - 87)
      else if 65 \<le> c \<and> c \<le> 70 then Some (c - 55)
      else None)"

definition escape :: "nat \<Rightarrow> nat option" where
  "escape c =
     (if c = 34 then Some 34
      else if c = 92 then Some 92
      else if c = 47 then Some 47
      else if c = 98 then Some 8
      else if c = 102 then Some 12
      else if c = 110 then Some 10
      else if c = 114 then Some 13
      else if c = 116 then Some 9
      else None)"

definition hex4 :: "nat \<Rightarrow> nat \<Rightarrow> nat \<Rightarrow> nat \<Rightarrow> nat option" where
  "hex4 h1 h2 h3 h4 =
     (case hex_unit h1 of None \<Rightarrow> None | Some a \<Rightarrow>
      case hex_unit h2 of None \<Rightarrow> None | Some b \<Rightarrow>
      case hex_unit h3 of None \<Rightarrow> None | Some c \<Rightarrow>
      case hex_unit h4 of None \<Rightarrow> None | Some d \<Rightarrow>
        Some (((a * 16 + b) * 16 + c) * 16 + d))"

fun unescape :: "jsstring \<Rightarrow> (nat \<times> jsstring) option" where
  "unescape [] = None"
| "unescape (e # es) =
     (if e = 117 then
        (case es of
           h1 # h2 # h3 # h4 # rest \<Rightarrow> map_option (\<lambda>v. (v, rest)) (hex4 h1 h2 h3 h4)
         | _ \<Rightarrow> None)
      else map_option (\<lambda>v. (v, es)) (escape e))"

lemma unescape_length: "unescape cs = Some (v, rest) \<Longrightarrow> length rest < length cs"
  by (cases cs) (auto split: if_splits list.splits)

function lex_string :: "jsstring \<Rightarrow> jsstring \<Rightarrow> (jsstring \<times> jsstring) option" where
  "lex_string acc [] = None"
| "lex_string acc (c # cs) =
     (if c = 34 then Some (rev acc, cs)
      else if c = 92 then
        (case unescape cs of
           None \<Rightarrow> None
         | Some (v, rest) \<Rightarrow> lex_string (v # acc) rest)
      else if c < 32 then None
      else lex_string (c # acc) cs)"
  by pat_completeness auto
termination
  by (relation "measure (\<lambda>(acc, cs). length cs)") (auto dest: unescape_length)

definition digits1 :: "jsstring \<Rightarrow> (jsstring \<times> jsstring) option" where
  "digits1 cs =
     (let ds = takeWhile is_digit cs in
      if ds = [] then None else Some (ds, dropWhile is_digit cs))"

definition lex_int :: "jsstring \<Rightarrow> (jsstring \<times> jsstring) option" where
  "lex_int cs =
     (case cs of
        [] \<Rightarrow> None
      | c # rest \<Rightarrow>
          if c = 48 then Some ([c], rest)
          else digits1 cs)"

definition lex_frac :: "jsstring \<Rightarrow> (jsstring \<times> jsstring) option" where
  "lex_frac cs =
     (case cs of
        c # rest \<Rightarrow>
          if c = 46 then
            (case digits1 rest of
               None \<Rightarrow> None
             | Some (ds, rest') \<Rightarrow> Some (c # ds, rest'))
          else Some ([], cs)
      | [] \<Rightarrow> Some ([], cs))"

definition lex_exp :: "jsstring \<Rightarrow> (jsstring \<times> jsstring) option" where
  "lex_exp cs =
     (case cs of
        c # rest \<Rightarrow>
          if c = 101 \<or> c = 69 then
            (let (sign, rest1) =
               (case rest of
                  s # rest2 \<Rightarrow> if s = 43 \<or> s = 45 then ([s], rest2) else ([], rest)
                | [] \<Rightarrow> ([], rest))
             in case digits1 rest1 of
                  None \<Rightarrow> None
                | Some (ds, rest') \<Rightarrow> Some (c # sign @ ds, rest'))
          else Some ([], cs)
      | [] \<Rightarrow> Some ([], cs))"

definition lex_number :: "jsstring \<Rightarrow> (jsstring \<times> jsstring) option" where
  "lex_number cs =
     (let (sign, rest0) =
        (case cs of
           c # rest \<Rightarrow> if c = 45 then ([c], rest) else ([], cs)
         | [] \<Rightarrow> ([], cs))
      in case lex_int rest0 of
           None \<Rightarrow> None
         | Some (i, rest1) \<Rightarrow>
             (case lex_frac rest1 of
                None \<Rightarrow> None
              | Some (f, rest2) \<Rightarrow>
                  (case lex_exp rest2 of
                     None \<Rightarrow> None
                   | Some (e, rest3) \<Rightarrow> Some (sign @ i @ f @ e, rest3))))"

lemma lex_string_length: "lex_string acc cs = Some (s, rest) \<Longrightarrow> length rest \<le> length cs"
proof (induction acc cs rule: lex_string.induct)
  case (1 acc)
  then show ?case by simp
next
  case (2 acc c cs)
  show ?case
  proof (cases "c = 34")
    case True
    with "2.prems" show ?thesis by simp
  next
    case quote: False
    show ?thesis
    proof (cases "c = 92")
      case True
      with quote "2.prems" obtain v r where u: "unescape cs = Some (v, r)"
        and l: "lex_string (v # acc) r = Some (s, rest)"
        by (auto split: option.splits)
      from "2.IH"(1) [OF quote True u refl l] have "length rest \<le> length r" .
      with unescape_length [OF u] show ?thesis by simp
    next
      case False
      with quote "2.prems" have c: "\<not> c < 32" and l: "lex_string (c # acc) cs = Some (s, rest)"
        by (auto split: if_splits)
      from "2.IH"(2) [OF quote False c l] show ?thesis by simp
    qed
  qed
qed

lemma digits1_length: "digits1 cs = Some (ds, rest) \<Longrightarrow> length rest < length cs"
proof -
  assume a: "digits1 cs = Some (ds, rest)"
  then have "ds = takeWhile is_digit cs" "rest = dropWhile is_digit cs" "ds \<noteq> []"
    by (auto simp: digits1_def Let_def split: if_splits)
  moreover have "length (takeWhile is_digit cs) + length (dropWhile is_digit cs) = length cs"
    by (metis length_append takeWhile_dropWhile_id)
  ultimately have "0 < length ds" "length ds + length rest = length cs" by simp_all
  then show ?thesis by linarith
qed

lemma lex_int_length: "lex_int cs = Some (i, rest) \<Longrightarrow> length rest < length cs"
  by (auto simp: lex_int_def split: list.splits if_splits dest: digits1_length)

lemma lex_frac_length: "lex_frac cs = Some (f, rest) \<Longrightarrow> length rest \<le> length cs"
  by (auto simp: lex_frac_def split: list.splits if_splits option.splits dest!: digits1_length)

lemma lex_exp_length: "lex_exp cs = Some (e, rest) \<Longrightarrow> length rest \<le> length cs"
  by (auto simp: lex_exp_def split: list.splits if_splits option.splits dest!: digits1_length)

lemma lex_number_length:
  assumes "lex_number cs = Some (n, rest)"
  shows "length rest < length cs"
proof -
  obtain sign rest0 where s: "(case cs of
           c # rest \<Rightarrow> if c = 45 then ([c], rest) else ([], cs)
         | [] \<Rightarrow> ([], cs)) = (sign, rest0)" by fastforce
  then have l0: "length rest0 \<le> length cs" by (auto split: list.splits if_splits)
  from assms s obtain i rest1 f rest2 e where
    "lex_int rest0 = Some (i, rest1)" "lex_frac rest1 = Some (f, rest2)" "lex_exp rest2 = Some (e, rest)"
    by (auto simp: lex_number_def split: option.splits)
  then show ?thesis
    using l0 lex_int_length [of rest0 i rest1] lex_frac_length [of rest1 f rest2]
      lex_exp_length [of rest2 e rest]
    by linarith
qed



function lex :: "jsstring \<Rightarrow> token list option" where
  "lex [] = Some []"
| "lex (c # cs) =
     (if is_ws c then lex cs
      else if c = 123 then map_option (Cons LBrace) (lex cs)
      else if c = 125 then map_option (Cons RBrace) (lex cs)
      else if c = 91 then map_option (Cons LBracket) (lex cs)
      else if c = 93 then map_option (Cons RBracket) (lex cs)
      else if c = 58 then map_option (Cons Colon) (lex cs)
      else if c = 44 then map_option (Cons Comma) (lex cs)
      else if c = 34 then
        (case lex_string [] cs of
           None \<Rightarrow> None
         | Some (s, rest) \<Rightarrow> map_option (Cons (TString s)) (lex rest))
      else if c = 45 \<or> is_digit c then
        (case lex_number (c # cs) of
           None \<Rightarrow> None
         | Some (n, rest) \<Rightarrow> map_option (Cons (TNumber n)) (lex rest))
      else if take 4 (c # cs) = js ''true'' then map_option (Cons TTrue) (lex (drop 3 cs))
      else if take 5 (c # cs) = js ''false'' then map_option (Cons TFalse) (lex (drop 4 cs))
      else if take 4 (c # cs) = js ''null'' then map_option (Cons TNull) (lex (drop 3 cs))
      else None)"
  by pat_completeness auto
termination
proof (relation "measure length", goal_cases)
  case (9 c cs x2 s rest)
  then show ?case using lex_string_length [of "[]" cs s rest] by simp
next
  case (10 c cs x2 n rest)
  then show ?case using lex_number_length [of "c # cs" n rest] by simp
qed simp_all

text \<open>
  The automaton: a stack of the arrays and objects that are open (each with what it
  holds so far, last first; an object also with the key whose value is being read),
  and what may come next.
\<close>

datatype frame =
    FArr "json list"
  | FObj "(jsstring \<times> json) list" "jsstring option"

datatype mode =
    MValue
  | MValueOrClose
  | MKeyOrClose
  | MKey
  | MColon
  | MAfter
  | MDone json

fun put :: "json \<Rightarrow> frame list \<Rightarrow> (mode \<times> frame list) option" where
  "put v [] = Some (MDone v, [])"
| "put v (FArr xs # st) = Some (MAfter, FArr (v # xs) # st)"
| "put v (FObj ms (Some k) # st) = Some (MAfter, FObj ((k, v) # ms) None # st)"
| "put v (FObj ms None # st) = None"

fun scalar :: "token \<Rightarrow> json option" where
  "scalar (TString s) = Some (JString s)"
| "scalar (TNumber n) = Some (JNumber n)"
| "scalar TTrue = Some (JBool True)"
| "scalar TFalse = Some (JBool False)"
| "scalar TNull = Some JNull"
| "scalar _ = None"

fun pvalue :: "token \<Rightarrow> frame list \<Rightarrow> (mode \<times> frame list) option" where
  "pvalue LBrace st = Some (MKeyOrClose, FObj [] None # st)"
| "pvalue LBracket st = Some (MValueOrClose, FArr [] # st)"
| "pvalue t st = (case scalar t of None \<Rightarrow> None | Some v \<Rightarrow> put v st)"

fun pkey :: "token \<Rightarrow> frame list \<Rightarrow> (mode \<times> frame list) option" where
  "pkey (TString k) (FObj ms None # st) = Some (MColon, FObj ms (Some k) # st)"
| "pkey _ _ = None"

fun pclose :: "token \<Rightarrow> frame list \<Rightarrow> (mode \<times> frame list) option" where
  "pclose RBracket (FArr xs # st) = put (JArray (rev xs)) st"
| "pclose RBrace (FObj ms None # st) = put (JObject (rev ms)) st"
| "pclose _ _ = None"

fun step :: "token \<Rightarrow> mode \<Rightarrow> frame list \<Rightarrow> (mode \<times> frame list) option" where
  "step t MValue st = pvalue t st"
| "step t MValueOrClose st = (if t = RBracket then pclose t st else pvalue t st)"
| "step t MKeyOrClose st = (if t = RBrace then pclose t st else pkey t st)"
| "step t MKey st = pkey t st"
| "step t MColon st = (if t = Colon then Some (MValue, st) else None)"
| "step t MAfter st =
     (if t = Comma then
        (case st of
           FArr xs # _ \<Rightarrow> Some (MValue, st)
         | FObj ms k # _ \<Rightarrow> Some (MKey, st)
         | [] \<Rightarrow> None)
      else pclose t st)"
| "step t (MDone v) st = None"

fun parse_tokens :: "token list \<Rightarrow> mode \<Rightarrow> frame list \<Rightarrow> json option" where
  "parse_tokens [] m st = (case m of MDone v \<Rightarrow> Some v | _ \<Rightarrow> None)"
| "parse_tokens (t # ts) m st =
     (case step t m st of
        None \<Rightarrow> None
      | Some (m', st') \<Rightarrow> parse_tokens ts m' st')"

definition JSON_parse :: "jsstring \<Rightarrow> json option" where
  "JSON_parse text =
     (case lex text of
        None \<Rightarrow> None
      | Some ts \<Rightarrow> parse_tokens ts MValue [])"

text \<open>
  \<^verbatim>\<open>object.key\<close> on a value that \<^verbatim>\<open>JSON.parse\<close> returned, for a key that no
  prototype defines (\<^verbatim>\<open>crypto\<close> and \<^verbatim>\<open>id\<close> are such keys): on \<^verbatim>\<open>null\<close> it throws a
  \<^verbatim>\<open>TypeError\<close> (\<open>Inl\<close>), on an object it is the value of the last member with that
  key, and \<^verbatim>\<open>undefined\<close> (\<open>None\<close>) without one, as on a string, a number, a boolean or
  an array.
\<close>

definition member' :: "json \<Rightarrow> jsstring \<Rightarrow> string + json option" where
  "member' object key =
     (case object of
        JNull \<Rightarrow> Inl ''TypeError''
      | JObject ms \<Rightarrow> Inr (map_of (rev ms) key)
      | _ \<Rightarrow> Inr None)"

subsection \<open>The class Keystore\<close>

datatype error =
    InvalidKeystore
  | UnsupportedCipher
  | IncorrectPassword
  | NativeError string

definition CIPHER :: string where
  "CIPHER = ''aes-128-ctr''"

record CipherParams =
  iv :: string

record KdfParams =
  dklen :: int
  kdf_n :: int
  kdf_r :: int
  kdf_p :: int
  salt :: string

record Crypto =
  cipher :: string
  cipherparams :: CipherParams
  ciphertext :: string
  kdf :: string
  kdfparams :: KdfParams
  mac :: string

text \<open>
  The constructor stores its two arguments and the field initialiser sets
  \<^verbatim>\<open>version = 3\<close>. TypeScript's types are gone at run time: \<^verbatim>\<open>fromJson\<close> passes
  whatever the parsed value holds, so the record is polymorphic in what \<^verbatim>\<open>crypto\<close>
  and \<^verbatim>\<open>id\<close> are. The methods that read them take a keystore of the declared types.
\<close>

record ('c, 'i) Keystore =
  crypto :: 'c
  id' :: 'i
  version :: int

definition new_Keystore :: "'c \<Rightarrow> 'i \<Rightarrow> ('c, 'i) Keystore" where
  "new_Keystore theCrypto id0 = \<lparr>crypto = theCrypto, id' = id0, version = 3\<rparr>"

text \<open>
  \<^verbatim>\<open>fromJson\<close>: every exception thrown inside the \<^verbatim>\<open>try\<close> block (the
  \<^verbatim>\<open>SyntaxError\<close> of \<^verbatim>\<open>JSON.parse\<close>, the \<^verbatim>\<open>TypeError\<close> of a property read on
  \<^verbatim>\<open>null\<close>) becomes \<^verbatim>\<open>InvalidKeystore\<close>.
\<close>

definition fromJson :: "jsstring \<Rightarrow> error + (json option, json option) Keystore" where
  "fromJson json =
     (case JSON_parse json of
        None \<Rightarrow> Inl InvalidKeystore
      | Some object \<Rightarrow>
          (case member' object (js ''crypto'') of
             Inl _ \<Rightarrow> Inl InvalidKeystore
           | Inr c \<Rightarrow>
               (case member' object (js ''id'') of
                  Inl _ \<Rightarrow> Inl InvalidKeystore
                | Inr i \<Rightarrow> Inr (new_Keystore c i))))"

subsection \<open>The libraries the class calls\<close>

text \<open>
  A cipher object of Node's \<^verbatim>\<open>crypto\<close>: \<^verbatim>\<open>update(data)\<close> returns output and
  leaves the object in a new state, \<^verbatim>\<open>final()\<close> returns what is left.
\<close>

codatatype Cipher =
  Cipher (update: "Buffer \<Rightarrow> Buffer \<times> Cipher") (final: Buffer)

text \<open>
  The library functions, as the class calls them. A call that throws returns \<open>Inl\<close>
  with the message. \<^verbatim>\<open>createCipheriv\<close> and \<^verbatim>\<open>createDecipheriv\<close> return a
  JavaScript value: \<open>Some\<close> a cipher object, or \<open>None\<close> for a falsy value.
  \<^verbatim>\<open>randomBytes\<close> and \<^verbatim>\<open>uuid\<close> draw on the process's source of randomness, whose
  state \<open>'r\<close> is passed along. \<open>keccak256 data\<close> is the digest of
  \<^verbatim>\<open>new Keccak(256).update(data)\<close>.
\<close>

record 'r provider =
  randomBytes :: "nat \<Rightarrow> 'r \<Rightarrow> Buffer \<times> 'r"
  scryptSync :: "string \<Rightarrow> Buffer \<Rightarrow> int \<Rightarrow> int \<Rightarrow> int \<Rightarrow> int \<Rightarrow> string + Buffer"
  createCipheriv :: "string \<Rightarrow> Buffer \<Rightarrow> Buffer \<Rightarrow> string + Cipher option"
  createDecipheriv :: "string \<Rightarrow> Buffer \<Rightarrow> Buffer \<Rightarrow> string + Cipher option"
  keccak256 :: "Buffer \<Rightarrow> Buffer"
  uuid :: "'r \<Rightarrow> string \<times> 'r"

text \<open>\<^verbatim>\<open>Buffer.concat([c.update(data), c.final()])\<close>, as both \<^verbatim>\<open>create\<close> and
  \<^verbatim>\<open>decrypt\<close> write it.\<close>

definition update_final :: "Cipher \<Rightarrow> Buffer \<Rightarrow> Buffer" where
  "update_final c data = (case update c data of (out, c') \<Rightarrow> out @ final c')"

subsection \<open>create, decrypt, checkPassword\<close>

record options =
  opt_salt :: "Buffer option"
  opt_iv :: "Buffer option"

text \<open>
  \<^verbatim>\<open>options.salt || crypto.randomBytes(32)\<close>: a \<^verbatim>\<open>Buffer\<close> is an object and so
  truthy, also when empty; only a missing option draws random bytes.
\<close>

definition or_randomBytes ::
  "'r provider \<Rightarrow> Buffer option \<Rightarrow> nat \<Rightarrow> 'r \<Rightarrow> Buffer \<times> 'r" where
  "or_randomBytes prov opt len rng =
     (case opt of Some b \<Rightarrow> (b, rng) | None \<Rightarrow> randomBytes prov len rng)"

definition mac' :: "'r provider \<Rightarrow> Buffer \<Rightarrow> Buffer \<Rightarrow> string" where
  "mac' prov derivedKey ciphertext' =
     toString_hex (keccak256 prov (slice derivedKey 16 32 @ ciphertext'))"

text \<open>
  A local constant of the source whose name is also a field or a method is written
  with a prime (\<open>derivedKey'\<close>, \<open>cipher'\<close>), as are the method \<^verbatim>\<open>mac\<close>, the field
  \<^verbatim>\<open>id\<close> and the parameter \<^verbatim>\<open>end\<close>; the parameters \<^verbatim>\<open>n\<close>, \<^verbatim>\<open>r\<close>, \<^verbatim>\<open>p\<close> of
  the key derivation are the fields \<open>kdf_n\<close>, \<open>kdf_r\<close>, \<open>kdf_p\<close>.

  \<^verbatim>\<open>create\<close>. The secret is of the class \<^verbatim>\<open>ExtendedPrivateKey\<close> (file
  \<^verbatim>\<open>./key\<close>, not among the sources); its method \<^verbatim>\<open>serialize\<close> is the parameter
  \<open>serialize\<close>. The result comes with the state of the randomness after the call.
\<close>

definition create ::
  "'r provider \<Rightarrow> ('k \<Rightarrow> string) \<Rightarrow> 'r \<Rightarrow> 'k \<Rightarrow> string \<Rightarrow> options
     \<Rightarrow> error + ((Crypto, string) Keystore \<times> 'r)" where
  "create prov serialize rng extendedPrivateKey password opts =
     (let (salt, rng1) = or_randomBytes prov (opt_salt opts) 32 rng;
          (iv, rng2) = or_randomBytes prov (opt_iv opts) 16 rng1;
          kdfparams = \<lparr>dklen = 32, kdf_n = 8192, kdf_r = 8, kdf_p = 1,
                       salt = toString_hex salt\<rparr>
      in case scryptSync prov password salt (dklen kdfparams)
                (kdf_n kdfparams) (kdf_r kdfparams) (kdf_p kdfparams) of
           Inl e \<Rightarrow> Inl (NativeError e)
         | Inr derivedKey' \<Rightarrow>
             (case createCipheriv prov CIPHER (slice derivedKey' 0 16) iv of
                Inl e \<Rightarrow> Inl (NativeError e)
              | Inr None \<Rightarrow> Inl UnsupportedCipher
              | Inr (Some cipher') \<Rightarrow>
                  (let ciphertext = update_final cipher' (from_hex (serialize extendedPrivateKey));
                       mac = toString_hex (keccak256 prov (slice derivedKey' 16 32 @ ciphertext));
                       (id0, rng3) = uuid prov rng2
                   in Inr (new_Keystore
                             \<lparr>cipher = CIPHER,
                              cipherparams = \<lparr>iv = toString_hex iv\<rparr>,
                              ciphertext = toString_hex ciphertext,
                              kdf = ''scrypt'',
                              kdfparams = kdfparams,
                              mac = mac\<rparr>
                             id0, rng3))))"

definition derivedKey :: "'r provider \<Rightarrow> (Crypto, 'i) Keystore \<Rightarrow> string \<Rightarrow> string + Buffer" where
  "derivedKey prov ks password =
     (let kdfparams = kdfparams (crypto ks)
      in scryptSync prov password (from_hex (salt kdfparams)) (dklen kdfparams)
           (kdf_n kdfparams) (kdf_r kdfparams) (kdf_p kdfparams))"

text \<open>
  \<^verbatim>\<open>decrypt\<close>. A library call that throws ends the method with that error. Were
  \<^verbatim>\<open>createDecipheriv\<close> to return a falsy value, \<^verbatim>\<open>decipher.update\<close> would throw
  a \<^verbatim>\<open>TypeError\<close>.
\<close>

definition decrypt :: "'r provider \<Rightarrow> (Crypto, 'i) Keystore \<Rightarrow> string \<Rightarrow> error + string" where
  "decrypt prov ks password =
     (case derivedKey prov ks password of
        Inl e \<Rightarrow> Inl (NativeError e)
      | Inr derivedKey' \<Rightarrow>
          (let ciphertext = from_hex (ciphertext (crypto ks))
           in if mac' prov derivedKey' ciphertext \<noteq> mac (crypto ks)
              then Inl IncorrectPassword
              else
                (case createDecipheriv prov (cipher (crypto ks)) (slice derivedKey' 0 16)
                        (from_hex (iv (cipherparams (crypto ks)))) of
                   Inl e \<Rightarrow> Inl (NativeError e)
                 | Inr None \<Rightarrow> Inl (NativeError ''TypeError'')
                 | Inr (Some decipher) \<Rightarrow>
                     Inr (toString_hex (update_final decipher ciphertext)))))"

text \<open>\<^verbatim>\<open>extendedPrivateKey\<close>, with \<^verbatim>\<open>ExtendedPrivateKey.parse\<close> as the parameter
  \<open>parse\<close>.\<close>

definition extendedPrivateKey ::
  "'r provider \<Rightarrow> (string \<Rightarrow> 'k) \<Rightarrow> (Crypto, 'i) Keystore \<Rightarrow> string \<Rightarrow> error + 'k" where
  "extendedPrivateKey prov parse ks password =
     (case decrypt prov ks password of
        Inl e \<Rightarrow> Inl e
      | Inr s \<Rightarrow> Inr (parse s))"

definition checkPassword :: "'r provider \<Rightarrow> (Crypto, 'i) Keystore \<Rightarrow> string \<Rightarrow> error + bool" where
  "checkPassword prov ks password =
     (case derivedKey prov ks password of
        Inl e \<Rightarrow> Inl (NativeError e)
      | Inr derivedKey' \<Rightarrow>
          (let ciphertext = from_hex (ciphertext (crypto ks))
           in Inr (mac' prov derivedKey' ciphertext = mac (crypto ks))))"

subsection \<open>What the theorems ask of the libraries\<close>

text \<open>
  Each predicate is a part of the documented behaviour of Node's \<^verbatim>\<open>crypto\<close>; a
  theorem names the parts it relies on.

  \<^item> \<open>kdf_total\<close>: with the parameters \<^verbatim>\<open>create\<close> fixes, \<^verbatim>\<open>scryptSync\<close> returns a
    key of the 32 bytes asked for.
  \<^item> \<open>aes_ctr_accepts\<close>: for \<^verbatim>\<open>aes-128-ctr\<close>, a 16-byte key and a 16-byte iv give a
    cipher object and a decipher object.
  \<^item> \<open>iv_length_checked\<close>: for \<^verbatim>\<open>aes-128-ctr\<close>, an iv of any other length makes
    both calls throw.
  \<^item> \<open>decipher_inverts\<close>: where \<^verbatim>\<open>createCipheriv\<close> gives a cipher object for
    \<^verbatim>\<open>aes-128-ctr\<close>, \<^verbatim>\<open>createDecipheriv\<close> with the same key and iv gives a
    decipher object that undoes it.
  \<^item> \<open>returns_object\<close>: \<^verbatim>\<open>createCipheriv\<close> returns a cipher object or throws; it
    never returns a falsy value.
\<close>

definition kdf_total :: "'r provider \<Rightarrow> bool" where
  "kdf_total prov \<longleftrightarrow>
     (\<forall>password s. \<exists>dk. scryptSync prov password s 32 8192 8 1 = Inr dk \<and> length dk = 32)"

definition aes_ctr_accepts :: "'r provider \<Rightarrow> bool" where
  "aes_ctr_accepts prov \<longleftrightarrow>
     (\<forall>key v. length key = 16 \<and> length v = 16 \<longrightarrow>
        (\<exists>c. createCipheriv prov CIPHER key v = Inr (Some c)) \<and>
        (\<exists>d. createDecipheriv prov CIPHER key v = Inr (Some d)))"

definition iv_length_checked :: "'r provider \<Rightarrow> bool" where
  "iv_length_checked prov \<longleftrightarrow>
     (\<forall>key v. length v \<noteq> 16 \<longrightarrow>
        (\<exists>e. createCipheriv prov CIPHER key v = Inl e) \<and>
        (\<exists>e. createDecipheriv prov CIPHER key v = Inl e))"

definition decipher_inverts :: "'r provider \<Rightarrow> bool" where
  "decipher_inverts prov \<longleftrightarrow>
     (\<forall>key v c. createCipheriv prov CIPHER key v = Inr (Some c) \<longrightarrow>
        (\<exists>d. createDecipheriv prov CIPHER key v = Inr (Some d) \<and>
             (\<forall>data. update_final d (update_final c data) = data)))"

definition returns_object :: "'r provider \<Rightarrow> bool" where
  "returns_object prov \<longleftrightarrow> (\<forall>name key v. createCipheriv prov name key v \<noteq> Inr None)"

text \<open>
  A small provider with all five properties, on which the theorems are exercised: its
  cipher adds one byte of key and iv to every byte of the data, its key derivation
  repeats a byte that depends on the lengths of password and salt, its hash pads or
  cuts the data to 32 bytes, and its randomness is a counter (an identifier is the
  counter in hex).
\<close>

primcorec xor_cipher :: "8 word \<Rightarrow> Cipher" where
  "update (xor_cipher k) = (\<lambda>data. (map (\<lambda>b. b XOR k) data, xor_cipher k))"
| "final (xor_cipher k) = []"

definition demo_cipheriv :: "string \<Rightarrow> Buffer \<Rightarrow> Buffer \<Rightarrow> string + Cipher option" where
  "demo_cipheriv name key v =
     (if name \<noteq> CIPHER then Inl ''Unknown cipher''
      else if length key \<noteq> 16 then Inl ''Invalid key length''
      else if length v \<noteq> 16 then Inl ''Invalid initialization vector''
      else Inr (Some (xor_cipher (hd key XOR hd v))))"

definition demo_provider :: "nat provider" where
  "demo_provider =
     \<lparr>randomBytes = (\<lambda>len rng. (replicate len (word_of_nat rng), Suc rng)),
      scryptSync = (\<lambda>password s keylen N r p.
         Inr (replicate (nat keylen) (word_of_nat (length password + length s)))),
      createCipheriv = demo_cipheriv,
      createDecipheriv = demo_cipheriv,
      keccak256 = (\<lambda>data. take 32 (data @ replicate 32 0)),
      uuid = (\<lambda>rng. (toString_hex [word_of_nat rng], Suc rng))\<rparr>"

text \<open>A keystore whose stored \<^verbatim>\<open>mac\<close> is not the one of its ciphertext, as a
  tampered or mistyped file would hold.\<close>

definition tampered :: "(Crypto, string) Keystore" where
  "tampered =
     new_Keystore
       \<lparr>cipher = CIPHER,
        cipherparams = \<lparr>iv = ''22222222222222222222222222222222''\<rparr>,
        ciphertext = ''05fa15'',
        kdf = ''scrypt'',
        kdfparams = \<lparr>dklen = 32, kdf_n = 8192, kdf_r = 8, kdf_p = 1, salt = ''1111''\<rparr>,
        mac = ''00''\<rparr>
       ''7''"


section \<open>Properties\<close>

subsection \<open>Hex encoding\<close>

lemma hexValue_hexDigit_all: "\<forall>d \<in> set [0..<16]. hexValue (hexDigit d) = Some d"
  by code_simp

lemma hexValue_hexDigit: "d < 16 \<Longrightarrow> hexValue (hexDigit d) = Some d"
  using hexValue_hexDigit_all by simp

lemma byte_digits: "word_of_nat (16 * (unat b div 16) + unat b mod 16) = (b :: 8 word)"
  by simp

lemma unat_div16: "unat (b :: 8 word) div 16 < 16"
proof -
  have "unat b < 256" using unsigned_less [of b, where ?'a = nat] by simp
  then show ?thesis by simp
qed

lemma from_hex_toString_hex: "from_hex (toString_hex bs) = bs"
  by (induction bs) (simp_all add: hexValue_hexDigit unat_div16 byte_digits del: of_nat_add of_nat_mult)

lemma toString_hex_inject: "toString_hex a = toString_hex b \<longleftrightarrow> a = b"
  by (metis from_hex_toString_hex)

subsection \<open>What create returns\<close>

lemma create_Inr:
  assumes "create prov serialize rng S password opts = Inr (ks, rng')"
  obtains s rng1 v rng2 dk c where
    "or_randomBytes prov (opt_salt opts) 32 rng = (s, rng1)"
    "or_randomBytes prov (opt_iv opts) 16 rng1 = (v, rng2)"
    "scryptSync prov password s 32 8192 8 1 = Inr dk"
    "createCipheriv prov CIPHER (slice dk 0 16) v = Inr (Some c)"
    "ks = new_Keystore
            \<lparr>cipher = CIPHER,
             cipherparams = \<lparr>iv = toString_hex v\<rparr>,
             ciphertext = toString_hex (update_final c (from_hex (serialize S))),
             kdf = ''scrypt'',
             kdfparams = \<lparr>dklen = 32, kdf_n = 8192, kdf_r = 8, kdf_p = 1, salt = toString_hex s\<rparr>,
             mac = mac' prov dk (update_final c (from_hex (serialize S)))\<rparr>
            (fst (uuid prov rng2))"
    "rng' = snd (uuid prov rng2)"
  using assms
  by (auto simp: create_def Let_def mac'_def split: prod.splits sum.splits option.splits)


lemma slice_length: "length (slice buf a b) = min (b - a) (length buf - a)"
  by (simp add: slice_def)

lemma derivedKey_new_Keystore:
  "derivedKey prov (new_Keystore c i) password =
     scryptSync prov password (from_hex (salt (kdfparams c))) (dklen (kdfparams c))
       (kdf_n (kdfparams c)) (kdf_r (kdfparams c)) (kdf_p (kdfparams c))"
  by (simp add: derivedKey_def new_Keystore_def Let_def)

lemma create_total:
  assumes kdf: "kdf_total prov" and aes: "aes_ctr_accepts prov" and v: "length v = 16"
  shows "\<exists>ks rng'. create prov serialize rng S password \<lparr>opt_salt = Some s, opt_iv = Some v\<rparr>
           = Inr (ks, rng')"
proof -
  from kdf obtain dk where dk: "scryptSync prov password s 32 8192 8 1 = Inr dk" "length dk = 32"
    unfolding kdf_total_def by blast
  then have "length (slice dk 0 16) = 16" by (simp add: slice_length)
  with aes v obtain c where "createCipheriv prov CIPHER (slice dk 0 16) v = Inr (Some c)"
    unfolding aes_ctr_accepts_def by blast
  with dk show ?thesis
    by (simp add: create_def or_randomBytes_def Let_def split: prod.splits)
qed

lemma decrypt_after_create:
  assumes inv: "decipher_inverts prov"
    and cr: "create prov serialize rng S password opts = Inr (ks, rng')"
  shows "decrypt prov ks password = Inr (toString_hex (from_hex (serialize S)))"
proof -
  from cr obtain s v dk c rng2 where
    dk: "scryptSync prov password s 32 8192 8 1 = Inr dk"
    and c: "createCipheriv prov CIPHER (slice dk 0 16) v = Inr (Some c)"
    and ks: "ks = new_Keystore
            \<lparr>cipher = CIPHER,
             cipherparams = \<lparr>iv = toString_hex v\<rparr>,
             ciphertext = toString_hex (update_final c (from_hex (serialize S))),
             kdf = ''scrypt'',
             kdfparams = \<lparr>dklen = 32, kdf_n = 8192, kdf_r = 8, kdf_p = 1, salt = toString_hex s\<rparr>,
             mac = mac' prov dk (update_final c (from_hex (serialize S)))\<rparr>
            (fst (uuid prov rng2))"
    by (rule create_Inr)
  from inv c obtain d where
    d: "createDecipheriv prov CIPHER (slice dk 0 16) v = Inr (Some d)"
    and roundtrip: "\<And>data. update_final d (update_final c data) = data"
    unfolding decipher_inverts_def by blast
  have "derivedKey prov ks password = Inr dk"
    by (simp add: ks derivedKey_new_Keystore from_hex_toString_hex dk)
  then show ?thesis
    by (simp add: decrypt_def ks new_Keystore_def from_hex_toString_hex d roundtrip)
qed

subsection \<open>The small provider has the five properties\<close>

lemma update_final_xor_cipher: "update_final (xor_cipher k) data = map (\<lambda>b. b XOR k) data"
  by (simp add: update_final_def)

lemma demo_kdf_total: "kdf_total demo_provider"
  by (simp add: kdf_total_def demo_provider_def)

lemma demo_aes_ctr_accepts: "aes_ctr_accepts demo_provider"
  by (simp add: aes_ctr_accepts_def demo_provider_def demo_cipheriv_def)

lemma demo_iv_length_checked: "iv_length_checked demo_provider"
  by (simp add: iv_length_checked_def demo_provider_def demo_cipheriv_def)

lemma xor_twice: "(x XOR k) XOR k = (x :: 8 word)"
  by (simp add: xor.assoc)

lemma demo_decipher_inverts: "decipher_inverts demo_provider"
  by (auto simp: decipher_inverts_def demo_provider_def demo_cipheriv_def
      update_final_xor_cipher comp_def xor_twice split: if_splits)

lemma demo_returns_object: "returns_object demo_provider"
  by (simp add: returns_object_def demo_provider_def demo_cipheriv_def)


subsection \<open>Round trip\<close>

text \<open>
  Claim C1. For every secret whose \<^verbatim>\<open>serialize()\<close> is the hex encoding of a byte
  sequence (as \<^verbatim>\<open>toString('hex')\<close> writes it), every password, the empty one
  included, and every fixed salt and 16-byte iv, \<^verbatim>\<open>create\<close> returns a keystore, and
  \<^verbatim>\<open>decrypt\<close> of that keystore with the same password returns exactly
  \<^verbatim>\<open>serialize()\<close>. The byte sequence may even be empty.
\<close>

theorem decrypt_create_roundtrip:
  assumes "kdf_total prov" and "aes_ctr_accepts prov" and "decipher_inverts prov"
    and "length v = 16"
    and "serialize S = toString_hex secret"
  shows "\<exists>ks rng'.
           create prov serialize rng S password \<lparr>opt_salt = Some s, opt_iv = Some v\<rparr> = Inr (ks, rng')
           \<and> decrypt prov ks password = Inr (serialize S)"
proof -
  from create_total [OF assms(1,2,4), of serialize rng S password s] obtain ks rng' where
    cr: "create prov serialize rng S password \<lparr>opt_salt = Some s, opt_iv = Some v\<rparr> = Inr (ks, rng')"
    by blast
  from decrypt_after_create [OF assms(3) cr] assms(5) cr show ?thesis
    by (simp add: from_hex_toString_hex)
qed


text \<open>The theorem on the small provider, for a three-byte secret and the password, salt and
  iv of the specification's scenario.\<close>

theorem decrypt_create_roundtrip_witness:
  "\<exists>ks rng'.
     create demo_provider (\<lambda>k. k) 0 ''00ff10'' ''correct horse''
       \<lparr>opt_salt = Some (replicate 32 0x11), opt_iv = Some (replicate 16 0x22)\<rparr> = Inr (ks, rng')
     \<and> decrypt demo_provider ks ''correct horse'' = Inr ''00ff10''"
  using decrypt_create_roundtrip [OF demo_kdf_total demo_aes_ctr_accepts demo_decipher_inverts,
      of "replicate 16 0x22" "\<lambda>k. k" "''00ff10''" "[0x00, 0xff, 0x10]" 0 "''correct horse''"
        "replicate 32 0x11"]
  by (simp add: hexDigit_def)

text \<open>
  Without the condition on \<^verbatim>\<open>serialize()\<close>: what \<^verbatim>\<open>decrypt\<close> returns is the
  lowercase hex encoding of the bytes that \<^verbatim>\<open>Buffer.from(serialize(), 'hex')\<close> read.
  For a string with uppercase digits, an odd length or a character that is no hex
  digit, that is not the string itself.
\<close>

theorem decrypt_create_canonical:
  assumes "decipher_inverts prov"
    and "create prov serialize rng S password opts = Inr (ks, rng')"
  shows "decrypt prov ks password = Inr (toString_hex (from_hex (serialize S)))"
  using assms by (rule decrypt_after_create)

theorem decrypt_create_canonical_witness:
  "\<exists>ks rng'.
     create demo_provider (\<lambda>k. k) 0 ''00FF1'' ''correct horse''
       \<lparr>opt_salt = Some (replicate 32 0x11), opt_iv = Some (replicate 16 0x22)\<rparr> = Inr (ks, rng')
     \<and> decrypt demo_provider ks ''correct horse'' = Inr ''00ff''"
proof -
  from create_total [OF demo_kdf_total demo_aes_ctr_accepts, of "replicate 16 0x22"
      "\<lambda>k. k" 0 "''00FF1''" "''correct horse''" "replicate 32 0x11"]
  obtain ks rng' where cr: "create demo_provider (\<lambda>k. k) 0 ''00FF1'' ''correct horse''
       \<lparr>opt_salt = Some (replicate 32 0x11), opt_iv = Some (replicate 16 0x22)\<rparr> = Inr (ks, rng')"
    by auto
  have "toString_hex (from_hex ''00FF1'') = ''00ff''"
    by code_simp
  with decrypt_create_canonical [OF demo_decipher_inverts cr] cr show ?thesis
    by auto
qed

subsection \<open>Authenticate, then decrypt\<close>

lemma derivedKey_createDecipheriv_update:
  "derivedKey (prov\<lparr>createDecipheriv := f\<rparr>) ks password = derivedKey prov ks password"
  by (simp add: derivedKey_def)

lemma mac'_createDecipheriv_update:
  "mac' (prov\<lparr>createDecipheriv := f\<rparr>) dk data = mac' prov dk data"
  by (simp add: mac'_def)

lemma decrypt_IncorrectPassword:
  "(decrypt prov ks password = Inl IncorrectPassword) =
     (\<exists>dk. derivedKey prov ks password = Inr dk \<and>
           mac' prov dk (from_hex (ciphertext (crypto ks))) \<noteq> mac (crypto ks))"
  by (auto simp: decrypt_def Let_def split: sum.splits option.splits)

text \<open>
  Claim C5. For every keystore and every password, \<^verbatim>\<open>decrypt\<close> raises
  \<^verbatim>\<open>IncorrectPassword\<close> exactly when the key was derived and the MAC recomputed over
  \<^verbatim>\<open>derivedKey[16:32]\<close> and the stored ciphertext differs from the stored
  \<^verbatim>\<open>mac\<close>; and then nothing is decrypted: whatever \<^verbatim>\<open>createDecipheriv\<close> would
  do, the outcome is \<^verbatim>\<open>IncorrectPassword\<close>, not a plaintext.
\<close>

theorem decrypt_authenticates_first:
  "(decrypt prov ks password = Inl IncorrectPassword) =
     (\<exists>dk. derivedKey prov ks password = Inr dk \<and>
           mac' prov dk (from_hex (ciphertext (crypto ks))) \<noteq> mac (crypto ks))
   \<and> (\<forall>dk f. derivedKey prov ks password = Inr dk \<and>
           mac' prov dk (from_hex (ciphertext (crypto ks))) \<noteq> mac (crypto ks)
         \<longrightarrow> decrypt (prov\<lparr>createDecipheriv := f\<rparr>) ks password = Inl IncorrectPassword)"
proof (rule conjI)
  show "(decrypt prov ks password = Inl IncorrectPassword) =
     (\<exists>dk. derivedKey prov ks password = Inr dk \<and>
           mac' prov dk (from_hex (ciphertext (crypto ks))) \<noteq> mac (crypto ks))"
    by (rule decrypt_IncorrectPassword)
next
  show "\<forall>dk f. derivedKey prov ks password = Inr dk \<and>
           mac' prov dk (from_hex (ciphertext (crypto ks))) \<noteq> mac (crypto ks)
         \<longrightarrow> decrypt (prov\<lparr>createDecipheriv := f\<rparr>) ks password = Inl IncorrectPassword"
    by (simp add: decrypt_IncorrectPassword derivedKey_createDecipheriv_update
        mac'_createDecipheriv_update)
qed

theorem decrypt_authenticates_first_witness:
  "decrypt demo_provider tampered ''pw'' = Inl IncorrectPassword
   \<and> decrypt (demo_provider\<lparr>createDecipheriv := (\<lambda>name key v. Inr None)\<rparr>) tampered ''pw''
       = Inl IncorrectPassword"
proof -
  have dk: "derivedKey demo_provider tampered ''pw'' = Inr (replicate 32 4)"
    by code_simp
  have m: "mac' demo_provider (replicate 32 4) (from_hex (ciphertext (crypto tampered)))
             \<noteq> mac (crypto tampered)"
    by code_simp
  from decrypt_authenticates_first [of demo_provider tampered "''pw''"] dk m
  show ?thesis by blast
qed

subsection \<open>The MAC\<close>

text \<open>
  Claim C7. \<^verbatim>\<open>mac\<close> is a function of \<^verbatim>\<open>derivedKey[16:32]\<close> and the ciphertext
  only: two 32-byte derived keys that agree on bytes 16 to 31 give, with the same
  ciphertext, the same MAC, whatever their bytes 0 to 15 are.
\<close>

theorem mac_reads_bytes_16_to_31:
  assumes "length dk1 = 32" and "length dk2 = 32"
    and "\<forall>i. 16 \<le> i \<and> i < 32 \<longrightarrow> dk1 ! i = dk2 ! i"
  shows "mac' prov dk1 data = mac' prov dk2 data"
proof -
  have "slice dk1 16 32 = slice dk2 16 32"
    unfolding slice_def using assms by (intro nth_equalityI) simp_all
  then show ?thesis by (simp add: mac'_def)
qed

theorem mac_reads_bytes_16_to_31_witness:
  "\<forall>(prov :: nat provider) data.
     mac' prov (replicate 16 0 @ replicate 16 7) data = mac' prov (replicate 16 1 @ replicate 16 7) data"
proof (intro allI)
  fix prov :: "nat provider" and data
  have "\<forall>i. 16 \<le> i \<and> i < 32 \<longrightarrow>
          (replicate 16 0 @ replicate 16 7) ! i = (replicate 16 1 @ replicate 16 7 :: Buffer) ! i"
    by (simp add: nth_append)
  with mac_reads_bytes_16_to_31 [of "replicate 16 0 @ replicate 16 7" "replicate 16 1 @ replicate 16 7" prov data]
  show "mac' prov (replicate 16 0 @ replicate 16 7) data = mac' prov (replicate 16 1 @ replicate 16 7) data"
    by simp
qed

subsection \<open>The format constants\<close>

text \<open>
  Claim C8. Every keystore that \<^verbatim>\<open>create\<close> returns has \<^verbatim>\<open>version = 3\<close>,
  \<^verbatim>\<open>crypto.cipher = "aes-128-ctr"\<close>, \<^verbatim>\<open>crypto.kdf = "scrypt"\<close>, \<^verbatim>\<open>kdfparams\<close>
  equal to \<^verbatim>\<open>{dklen: 32, n: 8192, r: 8, p: 1}\<close> with the salt in hex, and
  \<^verbatim>\<open>cipherparams.iv\<close> equal to the iv in hex, whatever the secret and the password
  are; the salt and the iv are the ones given, or else the random bytes drawn. Where
  the cipher checks the length of the iv, the iv has 16 bytes.
\<close>

theorem create_format:
  assumes "create prov serialize rng S password opts = Inr (ks, rng')"
  shows "version ks = 3
       \<and> cipher (crypto ks) = ''aes-128-ctr''
       \<and> kdf (crypto ks) = ''scrypt''
       \<and> (case or_randomBytes prov (opt_salt opts) 32 rng of (s, rng1) \<Rightarrow>
            kdfparams (crypto ks) =
              \<lparr>dklen = 32, kdf_n = 8192, kdf_r = 8, kdf_p = 1, salt = toString_hex s\<rparr>
            \<and> (case or_randomBytes prov (opt_iv opts) 16 rng1 of (v, rng2) \<Rightarrow>
                 iv (cipherparams (crypto ks)) = toString_hex v
                 \<and> (iv_length_checked prov \<longrightarrow> length v = 16)))"
proof -
  from assms obtain s rng1 v rng2 dk c where
    s: "or_randomBytes prov (opt_salt opts) 32 rng = (s, rng1)"
    and v: "or_randomBytes prov (opt_iv opts) 16 rng1 = (v, rng2)"
    and c: "createCipheriv prov CIPHER (slice dk 0 16) v = Inr (Some c)"
    and ks: "ks = new_Keystore
            \<lparr>cipher = CIPHER,
             cipherparams = \<lparr>iv = toString_hex v\<rparr>,
             ciphertext = toString_hex (update_final c (from_hex (serialize S))),
             kdf = ''scrypt'',
             kdfparams = \<lparr>dklen = 32, kdf_n = 8192, kdf_r = 8, kdf_p = 1, salt = toString_hex s\<rparr>,
             mac = mac' prov dk (update_final c (from_hex (serialize S)))\<rparr>
            (fst (uuid prov rng2))"
    by (rule create_Inr)
  have "iv_length_checked prov \<longrightarrow> length v = 16"
  proof (intro impI, rule ccontr)
    assume "iv_length_checked prov" and "length v \<noteq> 16"
    then obtain e where "createCipheriv prov CIPHER (slice dk 0 16) v = Inl e"
      unfolding iv_length_checked_def by blast
    with c show False by simp
  qed
  then show ?thesis
    by (simp add: ks s v new_Keystore_def CIPHER_def)
qed

theorem create_format_witness:
  "\<exists>ks rng'.
     create demo_provider (\<lambda>k. k) 5 ''00ff10'' ''pw'' \<lparr>opt_salt = Some [1, 2], opt_iv = None\<rparr>
       = Inr (ks, rng')
     \<and> version ks = 3
     \<and> cipher (crypto ks) = ''aes-128-ctr''
     \<and> kdf (crypto ks) = ''scrypt''
     \<and> kdfparams (crypto ks) = \<lparr>dklen = 32, kdf_n = 8192, kdf_r = 8, kdf_p = 1, salt = ''0102''\<rparr>
     \<and> iv (cipherparams (crypto ks)) = ''05050505050505050505050505050505''"
proof -
  have "\<exists>ks rng'. create demo_provider (\<lambda>k. k) 5 ''00ff10'' ''pw''
          \<lparr>opt_salt = Some [1, 2], opt_iv = None\<rparr> = Inr (ks, rng')"
    by (simp add: create_def or_randomBytes_def demo_provider_def demo_cipheriv_def
        slice_def Let_def split: prod.splits)
  then obtain ks rng' where cr: "create demo_provider (\<lambda>k. k) 5 ''00ff10'' ''pw''
          \<lparr>opt_salt = Some [1, 2], opt_iv = None\<rparr> = Inr (ks, rng')"
    by blast
  have s: "or_randomBytes demo_provider (Some [1, 2]) 32 (5::nat) = ([1, 2], 5)"
    by (simp add: or_randomBytes_def)
  have v: "or_randomBytes demo_provider None 16 (5::nat) = (replicate 16 5, 6)"
    by (simp add: or_randomBytes_def demo_provider_def)
  have h1: "toString_hex [1, 2] = ''0102''" by code_simp
  have h2: "toString_hex (replicate 16 5) = ''05050505050505050505050505050505''" by code_simp
  from create_format [OF cr] cr show ?thesis
    by (simp add: s v h1 h2 del: toString_hex.simps)
qed

subsection \<open>The guard on the cipher object\<close>

text \<open>
  Claim C10. \<^verbatim>\<open>create\<close> never raises \<^verbatim>\<open>UnsupportedCipher\<close>: when
  \<^verbatim>\<open>createCipheriv\<close> returns a cipher object or throws an error of its own, and
  never a falsy value, the guard \<^verbatim>\<open>if (!cipher)\<close> is never taken.
\<close>

theorem create_never_UnsupportedCipher:
  assumes "returns_object prov"
  shows "create prov serialize rng S password opts \<noteq> Inl UnsupportedCipher"
  using assms
  by (auto simp: create_def returns_object_def Let_def split: prod.splits sum.splits option.splits)

theorem create_never_UnsupportedCipher_witness:
  "create demo_provider (\<lambda>k. k) 0 ''00ff10'' ''pw'' \<lparr>opt_salt = None, opt_iv = Some []\<rparr>
     \<noteq> Inl UnsupportedCipher"
  by (rule create_never_UnsupportedCipher [OF demo_returns_object])

subsection \<open>Determinism under fixed salt and iv\<close>

text \<open>
  Claim C6. Two calls of \<^verbatim>\<open>create\<close> with the same secret, password, salt and iv
  return keystores with the same \<^verbatim>\<open>ciphertext\<close> and the same \<^verbatim>\<open>mac\<close>, whatever
  the state of the randomness (which the identifier is drawn from) at either call.
\<close>

theorem create_deterministic:
  assumes "create prov serialize rng1 S password \<lparr>opt_salt = Some s, opt_iv = Some v\<rparr> = Inr (ks1, rng1')"
    and "create prov serialize rng2 S password \<lparr>opt_salt = Some s, opt_iv = Some v\<rparr> = Inr (ks2, rng2')"
  shows "ciphertext (crypto ks1) = ciphertext (crypto ks2) \<and> mac (crypto ks1) = mac (crypto ks2)"
proof -
  from assms(1) obtain dk1 c1 where
    "scryptSync prov password s 32 8192 8 1 = Inr dk1"
    "createCipheriv prov CIPHER (slice dk1 0 16) v = Inr (Some c1)"
    "ciphertext (crypto ks1) = toString_hex (update_final c1 (from_hex (serialize S)))"
    "mac (crypto ks1) = mac' prov dk1 (update_final c1 (from_hex (serialize S)))"
    by (elim create_Inr) (simp add: or_randomBytes_def new_Keystore_def)
  moreover from assms(2) obtain dk2 c2 where
    "scryptSync prov password s 32 8192 8 1 = Inr dk2"
    "createCipheriv prov CIPHER (slice dk2 0 16) v = Inr (Some c2)"
    "ciphertext (crypto ks2) = toString_hex (update_final c2 (from_hex (serialize S)))"
    "mac (crypto ks2) = mac' prov dk2 (update_final c2 (from_hex (serialize S)))"
    by (elim create_Inr) (simp add: or_randomBytes_def new_Keystore_def)
  ultimately show ?thesis by simp
qed

theorem create_deterministic_witness:
  "\<exists>ks1 ks2.
     create demo_provider (\<lambda>k. k) 0 ''00ff10'' ''pw''
       \<lparr>opt_salt = Some [1, 2], opt_iv = Some (replicate 16 3)\<rparr> = Inr (ks1, 1)
     \<and> create demo_provider (\<lambda>k. k) 9 ''00ff10'' ''pw''
       \<lparr>opt_salt = Some [1, 2], opt_iv = Some (replicate 16 3)\<rparr> = Inr (ks2, 10)
     \<and> id' ks1 = ''00'' \<and> id' ks2 = ''09''
     \<and> ciphertext (crypto ks1) = ciphertext (crypto ks2) \<and> mac (crypto ks1) = mac (crypto ks2)"
proof -
  have h: "toString_hex [0] = ''00''" "toString_hex [9] = ''09''" by code_simp+
  have "\<exists>ks1. create demo_provider (\<lambda>k. k) 0 ''00ff10'' ''pw''
       \<lparr>opt_salt = Some [1, 2], opt_iv = Some (replicate 16 3)\<rparr> = Inr (ks1, 1) \<and> id' ks1 = ''00''"
    by (simp add: create_def or_randomBytes_def demo_provider_def demo_cipheriv_def
        slice_def Let_def new_Keystore_def h del: toString_hex.simps split: prod.splits)
  moreover have "\<exists>ks2. create demo_provider (\<lambda>k. k) 9 ''00ff10'' ''pw''
       \<lparr>opt_salt = Some [1, 2], opt_iv = Some (replicate 16 3)\<rparr> = Inr (ks2, 10) \<and> id' ks2 = ''09''"
    by (simp add: create_def or_randomBytes_def demo_provider_def demo_cipheriv_def
        slice_def Let_def new_Keystore_def h del: toString_hex.simps split: prod.splits)
  ultimately obtain ks1 ks2 where
    c1: "create demo_provider (\<lambda>k. k) 0 ''00ff10'' ''pw''
       \<lparr>opt_salt = Some [1, 2], opt_iv = Some (replicate 16 3)\<rparr> = Inr (ks1, 1)" "id' ks1 = ''00''"
    and c2: "create demo_provider (\<lambda>k. k) 9 ''00ff10'' ''pw''
       \<lparr>opt_salt = Some [1, 2], opt_iv = Some (replicate 16 3)\<rparr> = Inr (ks2, 10)" "id' ks2 = ''09''"
    by blast
  from create_deterministic [OF c1(1) c2(1)] c1 c2 show ?thesis by blast
qed

subsection \<open>A wrong password\<close>

text \<open>
  The derived keys of two passwords may agree on bytes 16 to 31: there are infinitely
  many passwords and finitely many 16-byte strings.
\<close>

lemma key_slice_collision:
  assumes "kdf_total prov"
  shows "\<exists>P P2 dk dk2. P \<noteq> P2
           \<and> scryptSync prov P s 32 8192 8 1 = Inr dk
           \<and> scryptSync prov P2 s 32 8192 8 1 = Inr dk2
           \<and> slice dk 16 32 = slice dk2 16 32"
proof -
  define f where "f P = slice (projr (scryptSync prov P s 32 8192 8 1)) 16 32" for P
  have "range f \<subseteq> {xs. set xs \<subseteq> UNIV \<and> length xs \<le> 16}"
    by (auto simp: f_def slice_length)
  moreover have "finite {xs :: Buffer. set xs \<subseteq> UNIV \<and> length xs \<le> 16}"
    by (rule finite_lists_length_le) simp
  ultimately have "finite (range f)"
    by (rule finite_subset)
  then have "\<not> inj f"
    using finite_imageD [of f UNIV] infinite_UNIV_listI by blast
  then obtain P P2 where ne: "P \<noteq> P2" and eq: "f P = f P2"
    unfolding inj_def by blast
  from assms obtain dk dk2 where
    "scryptSync prov P s 32 8192 8 1 = Inr dk" "scryptSync prov P2 s 32 8192 8 1 = Inr dk2"
    unfolding kdf_total_def by metis
  with ne eq show ?thesis
    by (auto simp: f_def)
qed

lemma derivedKey_after_create:
  assumes "create prov serialize rng S password opts = Inr (ks, rng')"
  shows "derivedKey prov ks password2 =
           scryptSync prov password2 (fst (or_randomBytes prov (opt_salt opts) 32 rng)) 32 8192 8 1"
  using assms
  by (elim create_Inr) (simp add: derivedKey_new_Keystore from_hex_toString_hex)

lemma mac_after_create:
  assumes "create prov serialize rng S password opts = Inr (ks, rng')"
    and "derivedKey prov ks password = Inr dk"
  shows "mac (crypto ks) = mac' prov dk (from_hex (ciphertext (crypto ks)))"
proof -
  from assms(1) obtain s rng1 v rng2 dk0 c where
    s: "or_randomBytes prov (opt_salt opts) 32 rng = (s, rng1)"
    and dk0: "scryptSync prov password s 32 8192 8 1 = Inr dk0"
    and ks: "ks = new_Keystore
            \<lparr>cipher = CIPHER,
             cipherparams = \<lparr>iv = toString_hex v\<rparr>,
             ciphertext = toString_hex (update_final c (from_hex (serialize S))),
             kdf = ''scrypt'',
             kdfparams = \<lparr>dklen = 32, kdf_n = 8192, kdf_r = 8, kdf_p = 1, salt = toString_hex s\<rparr>,
             mac = mac' prov dk0 (update_final c (from_hex (serialize S)))\<rparr>
            (fst (uuid prov rng2))"
    by (rule create_Inr)
  from derivedKey_after_create [OF assms(1), of password] assms(2) s dk0 have "dk = dk0"
    by simp
  then show ?thesis
    by (simp add: ks new_Keystore_def from_hex_toString_hex)
qed

text \<open>
  Claim C2, as amended. For a keystore that \<^verbatim>\<open>create\<close> returned for the password
  \<open>P\<close>, \<^verbatim>\<open>decrypt\<close> with a password \<open>P2\<close> raises \<^verbatim>\<open>IncorrectPassword\<close> exactly
  when the hash over bytes 16 to 31 of the key derived from \<open>P2\<close>, followed by the
  ciphertext, differs from the hash over bytes 16 to 31 of the key derived from \<open>P\<close>,
  followed by the ciphertext. That the two passwords differ is not enough.
\<close>

theorem wrong_password_rejected:
  assumes "create prov serialize rng S P opts = Inr (ks, rng')"
    and "derivedKey prov ks P = Inr dk"
    and "derivedKey prov ks P2 = Inr dk2"
  shows "(decrypt prov ks P2 = Inl IncorrectPassword) =
           (keccak256 prov (slice dk2 16 32 @ from_hex (ciphertext (crypto ks)))
              \<noteq> keccak256 prov (slice dk 16 32 @ from_hex (ciphertext (crypto ks))))"
  using assms(3) mac_after_create [OF assms(1,2)]
  by (simp add: decrypt_IncorrectPassword mac'_def toString_hex_inject)

text \<open>On the small provider, with the two passwords of the specification's scenario.\<close>

theorem wrong_password_rejected_witness:
  "\<exists>ks rng'.
     create demo_provider (\<lambda>k. k) 0 ''00ff10'' ''correct horse''
       \<lparr>opt_salt = Some (replicate 32 0x11), opt_iv = Some (replicate 16 0x22)\<rparr> = Inr (ks, rng')
     \<and> decrypt demo_provider ks ''wrong horse'' = Inl IncorrectPassword"
proof -
  from create_total [OF demo_kdf_total demo_aes_ctr_accepts, of "replicate 16 0x22"
      "\<lambda>k. k" 0 "''00ff10''" "''correct horse''" "replicate 32 0x11"]
  obtain ks rng' where cr: "create demo_provider (\<lambda>k. k) 0 ''00ff10'' ''correct horse''
       \<lparr>opt_salt = Some (replicate 32 0x11), opt_iv = Some (replicate 16 0x22)\<rparr> = Inr (ks, rng')"
    by auto
  have dk: "derivedKey demo_provider ks ''correct horse'' = Inr (replicate 32 45)"
    unfolding derivedKey_after_create [OF cr]
    by (simp add: or_randomBytes_def demo_provider_def)
  have dk2: "derivedKey demo_provider ks ''wrong horse'' = Inr (replicate 32 43)"
    unfolding derivedKey_after_create [OF cr]
    by (simp add: or_randomBytes_def demo_provider_def)
  have "keccak256 demo_provider (slice (replicate 32 43) 16 32 @ data)
          \<noteq> keccak256 demo_provider (slice (replicate 32 45) 16 32 @ data)" for data
    by (simp add: demo_provider_def slice_def)
  with wrong_password_rejected [OF cr dk dk2] cr show ?thesis
    by blast
qed

lemma wrong_password_accepted:
  assumes kdf: "kdf_total prov" and aes: "aes_ctr_accepts prov"
  shows "\<exists>P P2 ks rng'. P \<noteq> P2
           \<and> create prov serialize rng S P \<lparr>opt_salt = Some s, opt_iv = Some (replicate 16 0)\<rparr>
               = Inr (ks, rng')
           \<and> decrypt prov ks P2 \<noteq> Inl IncorrectPassword"
proof -
  from key_slice_collision [OF kdf, of s] obtain P P2 dk dk2 where
    ne: "P \<noteq> P2"
    and dk: "scryptSync prov P s 32 8192 8 1 = Inr dk"
    and dk2: "scryptSync prov P2 s 32 8192 8 1 = Inr dk2"
    and eq: "slice dk 16 32 = slice dk2 16 32"
    by blast
  from create_total [OF kdf aes, of "replicate 16 0" serialize rng S P s]
  obtain ks rng' where cr: "create prov serialize rng S P
      \<lparr>opt_salt = Some s, opt_iv = Some (replicate 16 0)\<rparr> = Inr (ks, rng')"
    by auto
  have d1: "derivedKey prov ks P = Inr dk"
    by (simp add: derivedKey_after_create [OF cr] or_randomBytes_def dk)
  have d2: "derivedKey prov ks P2 = Inr dk2"
    by (simp add: derivedKey_after_create [OF cr] or_randomBytes_def dk2)
  have "mac (crypto ks) = mac' prov dk (from_hex (ciphertext (crypto ks)))"
    by (rule mac_after_create [OF cr d1])
  also have "\<dots> = mac' prov dk2 (from_hex (ciphertext (crypto ks)))"
    by (simp add: mac'_def eq)
  finally have "decrypt prov ks P2 \<noteq> Inl IncorrectPassword"
    using d2 by (simp add: decrypt_IncorrectPassword)
  with ne cr show ?thesis by blast
qed

text \<open>
  Claim C2 as stated (for all distinct \<open>P\<close> and \<open>P2\<close>, \<^verbatim>\<open>decrypt\<close> with \<open>P2\<close> of
  the keystore created with \<open>P\<close> raises \<^verbatim>\<open>IncorrectPassword\<close>) holds for no provider
  whose key derivation returns 32 bytes and whose cipher accepts a 16-byte key and iv.
\<close>

theorem wrong_password_not_always_rejected:
  "\<forall>prov :: 'r provider.
     \<not> (kdf_total prov \<and> aes_ctr_accepts prov \<and>
        (\<forall>(serialize :: string \<Rightarrow> string) rng S P P2 s v ks rng'.
           P \<noteq> P2 \<and>
           create prov serialize rng S P \<lparr>opt_salt = Some s, opt_iv = Some v\<rparr> = Inr (ks, rng')
           \<longrightarrow> decrypt prov ks P2 = Inl IncorrectPassword))"
proof (intro allI notI, elim conjE)
  fix prov :: "'r provider"
  assume kdf: "kdf_total prov" and aes: "aes_ctr_accepts prov"
    and claim: "\<forall>(serialize :: string \<Rightarrow> string) rng S P P2 s v ks rng'.
           P \<noteq> P2 \<and>
           create prov serialize rng S P \<lparr>opt_salt = Some s, opt_iv = Some v\<rparr> = Inr (ks, rng')
           \<longrightarrow> decrypt prov ks P2 = Inl IncorrectPassword"
  obtain rng :: 'r where "rng = rng" by simp
  from wrong_password_accepted [OF kdf aes, of "\<lambda>k. k" rng "''00''" "[]"]
  obtain P P2 ks rng' where "P \<noteq> P2"
    "create prov (\<lambda>k. k) rng ''00'' P
       \<lparr>opt_salt = Some [], opt_iv = Some (replicate 16 0)\<rparr> = Inr (ks, rng')"
    "decrypt prov ks P2 \<noteq> Inl IncorrectPassword"
    by blast
  with claim show False by blast
qed

subsection \<open>checkPassword against decrypt\<close>

lemma checkPassword_False:
  "(checkPassword prov ks P = Inr False) = (decrypt prov ks P = Inl IncorrectPassword)"
  by (auto simp: checkPassword_def decrypt_IncorrectPassword Let_def split: sum.splits)

lemma checkPassword_True:
  "(checkPassword prov ks P = Inr True) =
     ((\<exists>dk. derivedKey prov ks P = Inr dk) \<and> decrypt prov ks P \<noteq> Inl IncorrectPassword)"
  by (auto simp: checkPassword_def decrypt_IncorrectPassword Let_def split: sum.splits)

lemma checkPassword_not_IncorrectPassword: "checkPassword prov ks P \<noteq> Inl IncorrectPassword"
  by (simp add: checkPassword_def Let_def split: sum.splits)

lemma decrypt_returns_after_create:
  assumes kdf: "kdf_total prov" and aes: "aes_ctr_accepts prov" and ivc: "iv_length_checked prov"
    and cr: "create prov serialize rng S P0 opts = Inr (ks, rng')"
  shows "(decrypt prov ks P \<noteq> Inl IncorrectPassword) = (\<exists>pt. decrypt prov ks P = Inr pt)"
proof -
  from cr obtain s rng1 v rng2 dk0 c where
    s: "or_randomBytes prov (opt_salt opts) 32 rng = (s, rng1)"
    and c: "createCipheriv prov CIPHER (slice dk0 0 16) v = Inr (Some c)"
    and ks: "ks = new_Keystore
            \<lparr>cipher = CIPHER,
             cipherparams = \<lparr>iv = toString_hex v\<rparr>,
             ciphertext = toString_hex (update_final c (from_hex (serialize S))),
             kdf = ''scrypt'',
             kdfparams = \<lparr>dklen = 32, kdf_n = 8192, kdf_r = 8, kdf_p = 1, salt = toString_hex s\<rparr>,
             mac = mac' prov dk0 (update_final c (from_hex (serialize S)))\<rparr>
            (fst (uuid prov rng2))"
    by (rule create_Inr)
  have v: "length v = 16"
  proof (rule ccontr)
    assume "length v \<noteq> 16"
    with ivc obtain e where "createCipheriv prov CIPHER (slice dk0 0 16) v = Inl e"
      unfolding iv_length_checked_def by blast
    with c show False by simp
  qed
  from kdf obtain dk where dk: "scryptSync prov P s 32 8192 8 1 = Inr dk" "length dk = 32"
    unfolding kdf_total_def by blast
  then have "length (slice dk 0 16) = 16" by (simp add: slice_length)
  with aes v obtain d where d: "createDecipheriv prov CIPHER (slice dk 0 16) v = Inr (Some d)"
    unfolding aes_ctr_accepts_def by blast
  have "derivedKey prov ks P = Inr dk"
    by (simp add: ks derivedKey_new_Keystore from_hex_toString_hex dk)
  then show ?thesis
    by (simp add: decrypt_def ks new_Keystore_def from_hex_toString_hex d Let_def)
qed

text \<open>
  Claim C4, as amended. For every keystore and every password, \<^verbatim>\<open>checkPassword\<close>
  returns \<^verbatim>\<open>false\<close> exactly when \<^verbatim>\<open>decrypt\<close> raises \<^verbatim>\<open>IncorrectPassword\<close>, and
  returns \<^verbatim>\<open>true\<close> exactly when the key is derived and \<^verbatim>\<open>decrypt\<close> does not raise
  \<^verbatim>\<open>IncorrectPassword\<close> (it may still fail where the decipher is made).
  \<^verbatim>\<open>checkPassword\<close> never raises \<^verbatim>\<open>IncorrectPassword\<close>, and what it returns is a
  boolean. For a keystore that \<^verbatim>\<open>create\<close> returned, \<^verbatim>\<open>checkPassword\<close> returns
  \<^verbatim>\<open>true\<close> exactly when \<^verbatim>\<open>decrypt\<close> returns.
\<close>

theorem checkPassword_decrypt:
  "((checkPassword prov ks P = Inr False) = (decrypt prov ks P = Inl IncorrectPassword))
   \<and> ((checkPassword prov ks P = Inr True) =
        ((\<exists>dk. derivedKey prov ks P = Inr dk) \<and> decrypt prov ks P \<noteq> Inl IncorrectPassword))
   \<and> checkPassword prov ks P \<noteq> Inl IncorrectPassword
   \<and> (kdf_total prov \<and> aes_ctr_accepts prov \<and> iv_length_checked prov \<and>
        create prov serialize rng S P0 opts = Inr (ks, rng')
        \<longrightarrow> (checkPassword prov ks P = Inr True) = (\<exists>pt. decrypt prov ks P = Inr pt))"
proof (intro conjI impI, goal_cases)
  case 1
  show ?case by (rule checkPassword_False)
next
  case 2
  show ?case by (rule checkPassword_True)
next
  case 3
  show ?case by (rule checkPassword_not_IncorrectPassword)
next
  case 4
  then have kdf: "kdf_total prov" and aes: "aes_ctr_accepts prov" and ivc: "iv_length_checked prov"
    and cr: "create prov serialize rng S P0 opts = Inr (ks, rng')"
    by simp_all
  from kdf obtain dk where "derivedKey prov ks P = Inr dk"
    unfolding derivedKey_after_create [OF cr] kdf_total_def by metis
  with decrypt_returns_after_create [OF kdf aes ivc cr, of P] show ?case
    by (simp add: checkPassword_True)
qed

theorem checkPassword_decrypt_witness:
  "\<exists>ks rng'.
     create demo_provider (\<lambda>k. k) 0 ''00ff10'' ''correct horse''
       \<lparr>opt_salt = Some (replicate 32 0x11), opt_iv = Some (replicate 16 0x22)\<rparr> = Inr (ks, rng')
     \<and> checkPassword demo_provider ks ''correct horse'' = Inr True
     \<and> decrypt demo_provider ks ''correct horse'' = Inr ''00ff10''
     \<and> checkPassword demo_provider ks ''wrong horse'' = Inr False
     \<and> decrypt demo_provider ks ''wrong horse'' = Inl IncorrectPassword"
proof -
  from create_total [OF demo_kdf_total demo_aes_ctr_accepts, of "replicate 16 0x22"
      "\<lambda>k. k" 0 "''00ff10''" "''correct horse''" "replicate 32 0x11"]
  obtain ks rng' where cr: "create demo_provider (\<lambda>k. k) 0 ''00ff10'' ''correct horse''
       \<lparr>opt_salt = Some (replicate 32 0x11), opt_iv = Some (replicate 16 0x22)\<rparr> = Inr (ks, rng')"
    by auto
  have hex: "''00ff10'' = toString_hex [0x00, 0xff, 0x10]"
    by code_simp
  have good: "decrypt demo_provider ks ''correct horse'' = Inr ''00ff10''"
    unfolding decrypt_after_create [OF demo_decipher_inverts cr] hex
    by (simp only: from_hex_toString_hex)
  have dk: "derivedKey demo_provider ks ''correct horse'' = Inr (replicate 32 45)"
    unfolding derivedKey_after_create [OF cr]
    by (simp add: or_randomBytes_def demo_provider_def)
  have dk2: "derivedKey demo_provider ks ''wrong horse'' = Inr (replicate 32 43)"
    unfolding derivedKey_after_create [OF cr]
    by (simp add: or_randomBytes_def demo_provider_def)
  have "mac' demo_provider (replicate 32 43) data \<noteq> mac' demo_provider (replicate 32 45) data"
    for data
    by (simp add: mac'_def toString_hex_inject demo_provider_def slice_def)
  then have bad: "decrypt demo_provider ks ''wrong horse'' = Inl IncorrectPassword"
    using dk2 mac_after_create [OF cr dk] by (simp add: decrypt_IncorrectPassword)
  from checkPassword_decrypt [of demo_provider ks "''correct horse''" "\<lambda>k. k" 0 "''00ff10''"
      "''correct horse''" "\<lparr>opt_salt = Some (replicate 32 0x11), opt_iv = Some (replicate 16 0x22)\<rparr>" rng']
    demo_kdf_total demo_aes_ctr_accepts demo_iv_length_checked cr good
  have t: "checkPassword demo_provider ks ''correct horse'' = Inr True"
    by blast
  from checkPassword_decrypt [of demo_provider ks "''wrong horse''" "\<lambda>k. k" 0 "''00ff10''"
      "''correct horse''" "\<lparr>opt_salt = Some (replicate 32 0x11), opt_iv = Some (replicate 16 0x22)\<rparr>" rng']
    bad
  have f: "checkPassword demo_provider ks ''wrong horse'' = Inr False"
    by blast
  from cr t good f bad show ?thesis by blast
qed

text \<open>
  Claim C4 as stated (for every keystore, \<^verbatim>\<open>checkPassword\<close> is true exactly when
  \<^verbatim>\<open>decrypt\<close> does not raise) fails on a keystore with the right \<^verbatim>\<open>mac\<close> and an
  empty iv: \<^verbatim>\<open>checkPassword\<close> returns \<^verbatim>\<open>true\<close> and \<^verbatim>\<open>createDecipheriv\<close> throws.
\<close>

theorem checkPassword_true_decrypt_raises:
  "\<forall>prov :: 'r provider.
     \<not> (kdf_total prov \<and> iv_length_checked prov \<and>
        (\<forall>(ks :: (Crypto, string) Keystore) P.
           (checkPassword prov ks P = Inr True) = (\<exists>pt. decrypt prov ks P = Inr pt)))"
proof (intro allI notI, elim conjE)
  fix prov :: "'r provider"
  assume kdf: "kdf_total prov" and ivc: "iv_length_checked prov"
    and claim: "\<forall>(ks :: (Crypto, string) Keystore) P.
           (checkPassword prov ks P = Inr True) = (\<exists>pt. decrypt prov ks P = Inr pt)"
  from kdf obtain dk where dk: "scryptSync prov [] [] 32 8192 8 1 = Inr dk"
    unfolding kdf_total_def by blast
  define ks :: "(Crypto, string) Keystore" where
    "ks = new_Keystore
            \<lparr>cipher = CIPHER,
             cipherparams = \<lparr>iv = []\<rparr>,
             ciphertext = [],
             kdf = ''scrypt'',
             kdfparams = \<lparr>dklen = 32, kdf_n = 8192, kdf_r = 8, kdf_p = 1, salt = []\<rparr>,
             mac = mac' prov dk []\<rparr>
            []"
  have d: "derivedKey prov ks [] = Inr dk"
    by (simp add: ks_def derivedKey_new_Keystore dk)
  then have t: "checkPassword prov ks [] = Inr True"
    by (simp add: checkPassword_def ks_def new_Keystore_def)
  from ivc obtain e where "createDecipheriv prov CIPHER (slice dk 0 16) [] = Inl e"
    unfolding iv_length_checked_def by fastforce
  with d have "decrypt prov ks [] = Inl (NativeError e)"
    by (simp add: decrypt_def ks_def new_Keystore_def)
  with t claim show False by simp
qed

subsection \<open>fromJson\<close>

lemma fromJson_cases:
  "fromJson json =
     (case JSON_parse json of
        None \<Rightarrow> Inl InvalidKeystore
      | Some JNull \<Rightarrow> Inl InvalidKeystore
      | Some (JObject ms) \<Rightarrow>
          Inr (new_Keystore (map_of (rev ms) (js ''crypto'')) (map_of (rev ms) (js ''id'')))
      | Some _ \<Rightarrow> Inr (new_Keystore None None))"
  by (simp add: fromJson_def member'_def split: option.splits json.splits)

lemma JSON_parse_not_json: "JSON_parse (js ''{not json'') = None"
  by code_simp

lemma JSON_parse_empty_object: "JSON_parse (js ''{}'') = Some (JObject [])"
  by code_simp

text \<open>
  Claim C3, as amended. \<^verbatim>\<open>fromJson\<close> raises \<^verbatim>\<open>InvalidKeystore\<close> exactly when the
  input is not well-formed JSON or is the JSON text \<^verbatim>\<open>null\<close>; it raises nothing else,
  and otherwise returns a keystore, whatever fields the parsed value has. In
  particular \<^verbatim>\<open>fromJson("{not json")\<close> raises \<^verbatim>\<open>InvalidKeystore\<close>.
\<close>

theorem fromJson_InvalidKeystore:
  "(fromJson json = Inl InvalidKeystore) = (JSON_parse json = None \<or> JSON_parse json = Some JNull)
   \<and> ((\<exists>ks. fromJson json = Inr ks) \<or> fromJson json = Inl InvalidKeystore)
   \<and> fromJson (js ''{not json'') = Inl InvalidKeystore"
proof (intro conjI)
  show "(fromJson json = Inl InvalidKeystore) = (JSON_parse json = None \<or> JSON_parse json = Some JNull)"
    by (simp add: fromJson_cases split: option.splits json.splits)
  show "(\<exists>ks. fromJson json = Inr ks) \<or> fromJson json = Inl InvalidKeystore"
    by (simp add: fromJson_cases split: option.splits json.splits)
  show "fromJson (js ''{not json'') = Inl InvalidKeystore"
    by (simp add: fromJson_cases JSON_parse_not_json)
qed

text \<open>
  Claim C3 as stated has \<^verbatim>\<open>fromJson("{}")\<close> raise \<^verbatim>\<open>InvalidKeystore\<close>. It returns a
  keystore whose \<^verbatim>\<open>crypto\<close> and \<^verbatim>\<open>id\<close> are \<^verbatim>\<open>undefined\<close>.
\<close>

theorem fromJson_empty_object:
  "fromJson (js ''{}'') = Inr \<lparr>crypto = None, id' = None, version = 3\<rparr>"
  by (simp add: fromJson_cases JSON_parse_empty_object new_Keystore_def)

lemma map_of_filter_other_key:
  "key \<noteq> k0 \<Longrightarrow> map_of (filter (\<lambda>(k, v). k \<noteq> k0) xs) key = map_of xs key"
  by (induction xs) auto

lemma member_ignores_version:
  assumes "key \<noteq> js ''version''"
    and "filter (\<lambda>(k, v). k \<noteq> js ''version'') ms = filter (\<lambda>(k, v). k \<noteq> js ''version'') ms2"
  shows "map_of (rev ms) key = map_of (rev ms2) key"
proof -
  have "map_of (rev ms) key = map_of (filter (\<lambda>(k, v). k \<noteq> js ''version'') (rev ms)) key"
    using assms(1) by (simp add: map_of_filter_other_key)
  also have "\<dots> = map_of (filter (\<lambda>(k, v). k \<noteq> js ''version'') (rev ms2)) key"
    using assms(2) by (simp add: rev_filter [symmetric])
  also have "\<dots> = map_of (rev ms2) key"
    using assms(1) by (simp add: map_of_filter_other_key)
  finally show ?thesis .
qed

lemma fromJson_Inr_version: "fromJson json = Inr ks \<Longrightarrow> version ks = 3"
  by (auto simp: fromJson_cases new_Keystore_def split: option.splits json.splits)

text \<open>
  Claim C9. A keystore that \<^verbatim>\<open>fromJson\<close> returns has \<^verbatim>\<open>version = 3\<close>; and the
  \<^verbatim>\<open>version\<close> members of the input play no part: two objects that agree once their
  \<^verbatim>\<open>version\<close> members are left out are both accepted, and give the same keystore.
\<close>

theorem fromJson_version:
  "(\<forall>ks. fromJson json = Inr ks \<longrightarrow> version ks = 3)
   \<and> (JSON_parse json = Some (JObject ms) \<and> JSON_parse json2 = Some (JObject ms2) \<and>
        filter (\<lambda>(k, v). k \<noteq> js ''version'') ms = filter (\<lambda>(k, v). k \<noteq> js ''version'') ms2
        \<longrightarrow> (\<exists>ks. fromJson json = Inr ks \<and> fromJson json2 = Inr ks \<and> version ks = 3))"
proof (intro conjI allI impI, goal_cases)
  case (1 ks)
  then show ?case by (rule fromJson_Inr_version)
next
  case 2
  then have p: "JSON_parse json = Some (JObject ms)" "JSON_parse json2 = Some (JObject ms2)"
    and f: "filter (\<lambda>(k, v). k \<noteq> js ''version'') ms = filter (\<lambda>(k, v). k \<noteq> js ''version'') ms2"
    by simp_all
  have c: "map_of (rev ms) (js ''crypto'') = map_of (rev ms2) (js ''crypto'')"
    by (rule member_ignores_version [OF _ f]) (simp add: js_def)
  have i: "map_of (rev ms) (js ''id'') = map_of (rev ms2) (js ''id'')"
    by (rule member_ignores_version [OF _ f]) (simp add: js_def)
  show ?case
    by (simp add: fromJson_cases p c i new_Keystore_def)
qed

text \<open>An input with \<^verbatim>\<open>"version": 4\<close> and the same input without it.\<close>

lemma JSON_parse_version_4:
  "JSON_parse (js ''{\"version\":4,\"id\":\"x\"}'')
     = Some (JObject [(js ''version'', JNumber (js ''4'')), (js ''id'', JString (js ''x''))])"
  by code_simp

lemma JSON_parse_no_version:
  "JSON_parse (js ''{\"id\":\"x\"}'') = Some (JObject [(js ''id'', JString (js ''x''))])"
  by code_simp

theorem fromJson_version_witness:
  "fromJson (js ''{\"version\":4,\"id\":\"x\"}'')
     = Inr \<lparr>crypto = None, id' = Some (JString (js ''x'')), version = 3\<rparr>
   \<and> fromJson (js ''{\"id\":\"x\"}'')
     = Inr \<lparr>crypto = None, id' = Some (JString (js ''x'')), version = 3\<rparr>"
proof -
  have f: "filter (\<lambda>(k, v). k \<noteq> js ''version'')
             [(js ''version'', JNumber (js ''4'')), (js ''id'', JString (js ''x''))]
         = filter (\<lambda>(k, v). k \<noteq> js ''version'') [(js ''id'', JString (js ''x''))]"
    by (simp add: js_def)
  from fromJson_version [of "js ''{\"version\":4,\"id\":\"x\"}''"
      "[(js ''version'', JNumber (js ''4'')), (js ''id'', JString (js ''x''))]"
      "js ''{\"id\":\"x\"}''" "[(js ''id'', JString (js ''x''))]"]
    JSON_parse_version_4 JSON_parse_no_version f
  obtain ks where k: "fromJson (js ''{\"version\":4,\"id\":\"x\"}'') = Inr ks"
    "fromJson (js ''{\"id\":\"x\"}'') = Inr ks" "version ks = 3"
    by blast
  have "fromJson (js ''{\"id\":\"x\"}'')
     = Inr \<lparr>crypto = None, id' = Some (JString (js ''x'')), version = 3\<rparr>"
    unfolding fromJson_cases JSON_parse_no_version
    by (simp add: new_Keystore_def js_def)
  with k show ?thesis by simp
qed

end
